theory Spec2Isabelle
  imports Main "HOL-Library.Word" "HOL-Library.Stream"
begin

section \<open>Go runtime and library behaviour used by the three commands\<close>

text \<open>
  The repository holds three commands: \<^verbatim>\<open>cmd/producer\<close> (hot key),
  \<^verbatim>\<open>cmd/producer_balanced\<close> (hot key spread over shards) and \<^verbatim>\<open>cmd/consumer\<close>.
  A call that fails in Go either returns an error value or panics; both are values here.
\<close>

datatype fault = Error string | Panic string

definition bind :: "fault + 'a \<Rightarrow> ('a \<Rightarrow> fault + 'b) \<Rightarrow> fault + 'b" where
  "bind m f = (case m of Inl e \<Rightarrow> Inl e | Inr x \<Rightarrow> f x)"

subsection \<open>Integer division and formatting\<close>

text \<open>Go's \<^verbatim>\<open>/\<close> and \<^verbatim>\<open>%\<close> on integers truncate towards zero; dividing by zero panics.\<close>

definition go_quot :: "int \<Rightarrow> int \<Rightarrow> int" where
  "go_quot a b = sgn a * sgn b * (\<bar>a\<bar> div \<bar>b\<bar>)"

definition go_rem :: "int \<Rightarrow> int \<Rightarrow> int" where
  "go_rem a b = sgn a * (\<bar>a\<bar> mod \<bar>b\<bar>)"

definition go_div :: "int \<Rightarrow> int \<Rightarrow> fault + int" where
  "go_div a b = (if b = 0 then Inl (Panic ''runtime error: integer divide by zero'')
                 else Inr (go_quot a b))"

definition digit_char :: "nat \<Rightarrow> char" where
  "digit_char d = ''0123456789'' ! d"

function show_nat :: "nat \<Rightarrow> string" where
  "show_nat n = (if n < 10 then [digit_char n]
                 else show_nat (n div 10) @ [digit_char (n mod 10)])"
  by pat_completeness auto
termination
  by (relation "measure id") auto

declare show_nat.simps [simp del]

text \<open>The verb \<^verbatim>\<open>%d\<close>: decimal digits, with a minus sign for a negative number.\<close>

definition fmt_d :: "int \<Rightarrow> string" where
  "fmt_d n = (if n < 0 then CHR ''-'' # show_nat (nat (- n)) else show_nat (nat n))"

definition pad0 :: "nat \<Rightarrow> string \<Rightarrow> string" where
  "pad0 w s = replicate (w - length s) (CHR ''0'') @ s"

text \<open>The verb \<^verbatim>\<open>%06d\<close>: width 6 with the sign counted, zeros after the sign.\<close>

definition fmt_06d :: "int \<Rightarrow> string" where
  "fmt_06d n = (if n < 0 then CHR ''-'' # pad0 5 (show_nat (nat (- n)))
                else pad0 6 (show_nat (nat n)))"

datatype arg = I int | S string

text \<open>
  \<^verbatim>\<open>fmt.Sprintf\<close> on the verbs the commands use (\<^verbatim>\<open>%d\<close>, \<^verbatim>\<open>%06d\<close>, \<^verbatim>\<open>%s\<close>),
  each with an operand of its own kind. Every format string of the repository stays
  inside this fragment; a percent sign outside it is copied as it stands.
\<close>

fun sprintf :: "string \<Rightarrow> arg list \<Rightarrow> string" where
  "sprintf [] as = []"
| "sprintf (c # fs) as =
     (if c = CHR ''%'' then
        (case as of
           I n # as' \<Rightarrow>
             if take 1 fs = ''d'' then fmt_d n @ sprintf (drop 1 fs) as'
             else if take 3 fs = ''06d'' then fmt_06d n @ sprintf (drop 3 fs) as'
             else c # sprintf fs as
         | S s # as' \<Rightarrow>
             if take 1 fs = ''s'' then s @ sprintf (drop 1 fs) as'
             else c # sprintf fs as
         | [] \<Rightarrow> c # sprintf fs as)
      else c # sprintf fs as)"

subsection \<open>The random source\<close>

text \<open>
  \<^verbatim>\<open>rand.New(rand.NewSource(time.Now().UnixNano()))\<close>: the generator is the stream of
  raw values it will hand out. \<^verbatim>\<open>r.Intn(n)\<close> panics unless \<open>0 < n\<close> and otherwise
  returns a value of \<open>[0, n)\<close>, consuming one raw value; every value of the range is the
  result for some raw value.
\<close>

type_synonym rng = "nat stream"

definition Intn :: "rng \<Rightarrow> int \<Rightarrow> fault + (int \<times> rng)" where
  "Intn r n = (if n \<le> 0 then Inl (Panic ''invalid argument to Intn'')
               else Inr (int (shd r) mod n, stl r))"

text \<open>\<^verbatim>\<open>func pick(ss []string, r *rand.Rand) string { return ss[r.Intn(len(ss))] }\<close>\<close>

definition pick :: "string list \<Rightarrow> rng \<Rightarrow> fault + (string \<times> rng)" where
  "pick ss r = bind (Intn r (int (length ss))) (\<lambda>(k, r'). Inr (ss ! nat k, r'))"

subsection \<open>Channels and the non-blocking send\<close>

text \<open>
  A Go channel: the buffered elements, the capacity, the receivers blocked on it, and the
  elements receivers have taken. The transport's input channel is owned by the client
  library; the producers only send on it. A send can proceed when a receiver is waiting
  or a buffer slot is free. The input is full otherwise.
\<close>

record 'a chan =
  buf :: "'a list"
  cap :: nat
  recvq :: nat
  received :: "'a list"

definition chan_full :: "'a chan \<Rightarrow> bool" where
  "chan_full ch = (recvq ch = 0 \<and> cap ch \<le> length (buf ch))"

datatype send_result = accepted | dropped

text \<open>
  \<^verbatim>\<open>select { case asyncProducer.Input() <- msg: ... default: ... }\<close>:
  the send is taken when it can proceed at once, the default branch otherwise.
\<close>

definition try_send :: "'a chan \<Rightarrow> 'a \<Rightarrow> send_result \<times> 'a chan" where
  "try_send ch m =
     (if 0 < recvq ch then
        (accepted, ch\<lparr>recvq := recvq ch - 1, received := received ch @ [m]\<rparr>)
      else if length (buf ch) < cap ch then (accepted, ch\<lparr>buf := buf ch @ [m]\<rparr>)
      else (dropped, ch))"

section \<open>The producers\<close>

record gameEvent =
  ID :: "64 word"
  PlayerID :: string
  GameID :: string
  EventType :: string
  Amount :: int
  TableID :: string
  TS :: "64 word"

record producerMessage =
  Topic :: string
  Key :: string
  Value :: string

definition vip :: string where
  "vip = ''player-000001''"

definition event_types :: "string list" where
  "event_types = [''bet_placed'', ''hand_finished'', ''chips_added'']"

definition payload_format :: string where
  \<open>payload_format =
     ''{"id":%d,"player_id":"%s","game_id":"%s","event_type":"%s","amount":%d,"table_id":"%s","ts":%d}''\<close>

definition encode :: "gameEvent \<Rightarrow> string" where
  "encode ev = sprintf payload_format
     [I (sint (ID ev)), S (PlayerID ev), S (GameID ev), S (EventType ev),
      I (Amount ev), S (TableID ev), I (sint (TS ev))]"

text \<open>
  The fields of the event after the player, in the order the struct literal evaluates them:
  game, event type, amount, table, timestamp (\<open>now\<close> is \<^verbatim>\<open>time.Now().UnixMilli()\<close>).
\<close>

definition new_event :: "64 word \<Rightarrow> string \<Rightarrow> 64 word \<Rightarrow> rng \<Rightarrow> fault + (gameEvent \<times> rng)" where
  "new_event i playerID now r =
     bind (Intn r 50) (\<lambda>(g, r).
     bind (pick event_types r) (\<lambda>(et, r).
     bind (Intn r 200) (\<lambda>(a, r).
     bind (Intn r 100) (\<lambda>(t, r).
       Inr (\<lparr>ID = i, PlayerID = playerID, GameID = sprintf ''game-%d'' [I g],
             EventType = et, Amount = 10 + a, TableID = sprintf ''table-%d'' [I t],
             TS = now\<rparr>, r)))))"

subsection \<open>cmd/producer: one tick of the generation goroutine\<close>

text \<open>
  Lines 81 to 109 of \<^verbatim>\<open>cmd/producer/main.go\<close>: pick a player, override it with the VIP
  when the draw of \<open>[0, 100)\<close> is below \<open>skewPercent\<close>, build the event, key it by player.
\<close>

definition skewed_message ::
  "string \<Rightarrow> int \<Rightarrow> 64 word \<Rightarrow> 64 word \<Rightarrow> rng \<Rightarrow> fault + (gameEvent \<times> producerMessage \<times> rng)" where
  "skewed_message topic skewPercent i now r =
     bind (Intn r 200000) (\<lambda>(n, r).
     bind (Intn r 100) (\<lambda>(d, r).
       let playerID = (if d < skewPercent then ''player-000001''
                       else sprintf ''player-%06d'' [I n]) in
     bind (new_event i playerID now r) (\<lambda>(ev, r).
       let key = playerID; val = encode ev in
       Inr (ev, \<lparr>Topic = topic, Key = key, Value = val\<rparr>, r))))"

subsection \<open>cmd/producer_balanced: one tick of the generation goroutine\<close>

text \<open>
  Lines 81 to 113 of \<^verbatim>\<open>cmd/producer_balanced/main.go\<close>: the VIP unless the draw of
  \<open>[0, 100)\<close> is 95 or more, then the event, then the shard drawn from \<open>[0, shards)\<close>
  and the key \<^verbatim>\<open>playerID#shard=N\<close>.
\<close>

definition balanced_message ::
  "string \<Rightarrow> int \<Rightarrow> 64 word \<Rightarrow> 64 word \<Rightarrow> rng \<Rightarrow> fault + (gameEvent \<times> producerMessage \<times> rng)" where
  "balanced_message topic shards i now r =
     bind (Intn r 100) (\<lambda>(d, r).
     bind (if d \<ge> 95 then bind (Intn r 200000) (\<lambda>(n, r). Inr (sprintf ''player-%06d'' [I n], r))
           else Inr (''player-000001'', r)) (\<lambda>(playerID, r).
     bind (new_event i playerID now r) (\<lambda>(ev, r).
     bind (Intn r shards) (\<lambda>(shard, r).
       let key = sprintf ''%s#shard=%d'' [S (PlayerID ev), I shard]; val = encode ev in
       Inr (ev, \<lparr>Topic = topic, Key = key, Value = val\<rparr>, r)))))"

subsection \<open>The generation loop\<close>

text \<open>
  What a tick finds: the clock and the state of the transport's input channel at the
  \<^verbatim>\<open>select\<close>. The loop keeps the random source and the counter \<open>i\<close>; each tick offers
  one message, and \<open>i\<close> is incremented in the send branch only.
\<close>

record tick =
  now :: "64 word"
  input :: "producerMessage chan"

record offer =
  event :: gameEvent
  message :: producerMessage
  result :: send_result
  input_after :: "producerMessage chan"

type_synonym builder = "64 word \<Rightarrow> 64 word \<Rightarrow> rng \<Rightarrow> fault + (gameEvent \<times> producerMessage \<times> rng)"

fun generate :: "builder \<Rightarrow> tick list \<Rightarrow> rng \<Rightarrow> 64 word \<Rightarrow> offer list \<times> fault option" where
  "generate build [] r i = ([], None)"
| "generate build (t # ts) r i =
     (case build i (now t) r of
        Inl e \<Rightarrow> ([], Some e)
      | Inr (ev, msg, r') \<Rightarrow>
          (case try_send (input t) msg of
             (accepted, ch) \<Rightarrow>
               (case generate build ts r' (i + 1) of (os, e) \<Rightarrow>
                  (\<lparr>event = ev, message = msg, result = accepted, input_after = ch\<rparr> # os, e))
           | (dropped, ch) \<Rightarrow>
               (case generate build ts r' i of (os, e) \<Rightarrow>
                  (\<lparr>event = ev, message = msg, result = dropped, input_after = ch\<rparr> # os, e))))"

subsection \<open>The run functions and the process exit\<close>

text \<open>
  What the process meets outside itself: whether \<^verbatim>\<open>sarama.NewAsyncProducer\<close> fails
  (and with which error), the seed, the ticks the generation goroutine handles before the
  shutdown signal is received, and whether \<^verbatim>\<open>Close\<close> returns within the five seconds.
  The options \<open>rate\<close>, \<open>skewPercent\<close> and \<open>shards\<close> are Go \<^verbatim>\<open>int\<close>s; nothing is
  computed from them that could overflow, so they are integers here.
\<close>

record producer_env =
  connect :: "string option"
  seed :: rng
  ticks :: "tick list"
  close_in_time :: bool

datatype pevent =
    ProducerStarted
  | TaskStarted
  | Offered offer
  | ShutdownStarted
  | ClosedCleanly
  | CloseTimedOut
  | Completed

definition Second :: int where
  "Second = 1000000000"

text \<open>\<^verbatim>\<open>time.NewTicker(d)\<close> panics unless \<open>0 < d\<close>.\<close>

definition NewTicker :: "int \<Rightarrow> fault + int" where
  "NewTicker d = (if d \<le> 0 then Inl (Panic ''non-positive interval for NewTicker'')
                  else Inr d)"

text \<open>
  The body shared by the two \<^verbatim>\<open>run\<close> functions (they differ in the tick only): connect,
  log the start, create the ticker from \<^verbatim>\<open>time.Second / time.Duration(rate)\<close>, start the
  generation goroutine, wait for the signal, close. The deferred \<^verbatim>\<open>completed\<close> log runs
  when \<^verbatim>\<open>run\<close> returns or panics; a panic inside the goroutine ends the process at once.
\<close>

definition run :: "builder \<Rightarrow> producer_env \<Rightarrow> int \<Rightarrow> pevent list \<times> (fault + unit)" where
  "run build env rate =
     (case connect env of
        Some e \<Rightarrow> ([Completed], Inl (Error (''failed to create kafka producer: '' @ e)))
      | None \<Rightarrow>
          (case bind (go_div Second rate) NewTicker of
             Inl p \<Rightarrow> ([ProducerStarted, Completed], Inl p)
           | Inr d \<Rightarrow>
               (case generate build (ticks env) (seed env) 0 of
                  (os, Some p) \<Rightarrow> (ProducerStarted # TaskStarted # map Offered os, Inl p)
                | (os, None) \<Rightarrow>
                    (ProducerStarted # TaskStarted # map Offered os @
                       [ShutdownStarted,
                        if close_in_time env then ClosedCleanly else CloseTimedOut,
                        Completed],
                     Inr ()))))"

definition producer_run ::
  "producer_env \<Rightarrow> string \<Rightarrow> int \<Rightarrow> int \<Rightarrow> pevent list \<times> (fault + unit)" where
  "producer_run env topic rate skewPercent = run (skewed_message topic skewPercent) env rate"

definition balanced_run ::
  "producer_env \<Rightarrow> string \<Rightarrow> int \<Rightarrow> int \<Rightarrow> pevent list \<times> (fault + unit)" where
  "balanced_run env topic rate shards = run (balanced_message topic shards) env rate"

text \<open>
  \<^verbatim>\<open>main\<close>: an error returned by \<^verbatim>\<open>run\<close> is logged and the process exits with status 1;
  an unrecovered panic ends a Go process with status 2; a nil return leaves status 0.
\<close>

definition exit_code :: "fault + unit \<Rightarrow> int" where
  "exit_code res = (case res of Inr _ \<Rightarrow> 0 | Inl (Error _) \<Rightarrow> 1 | Inl (Panic _) \<Rightarrow> 2)"

definition producer_main :: "producer_env \<Rightarrow> string \<Rightarrow> int \<Rightarrow> int \<Rightarrow> pevent list \<times> int" where
  "producer_main env topic rate skewPercent =
     (case producer_run env topic rate skewPercent of (tr, res) \<Rightarrow> (tr, exit_code res))"

definition balanced_main :: "producer_env \<Rightarrow> string \<Rightarrow> int \<Rightarrow> int \<Rightarrow> pevent list \<times> int" where
  "balanced_main env topic rate shards =
     (case balanced_run env topic rate shards of (tr, res) \<Rightarrow> (tr, exit_code res))"

section \<open>The consumer\<close>

record consumerMessage =
  msgKey :: string
  msgOffset :: "64 word"

record handler =
  work :: int

datatype cevent =
    Slept int
  | Logged int "64 word" string
  | Marked consumerMessage

text \<open>
  \<^verbatim>\<open>ConsumeClaim\<close>: for each message of the claim, in the order the channel delivers them,
  sleep, log partition, offset and key when \<^verbatim>\<open>msg.Offset%500 == 0\<close>, mark the message.
  The result is the trace of these effects; the function itself returns nil when the
  channel is closed. \<open>work\<close> is \<^verbatim>\<open>h.work\<close>, a duration in nanoseconds.
\<close>

fun ConsumeClaim :: "handler \<Rightarrow> int \<Rightarrow> consumerMessage list \<Rightarrow> cevent list" where
  "ConsumeClaim h p [] = []"
| "ConsumeClaim h p (msg # msgs) =
     Slept (work h) #
     (if go_rem (sint (msgOffset msg)) 500 = 0 then [Logged p (msgOffset msg) (msgKey msg)]
      else []) @
     Marked msg # ConsumeClaim h p msgs"

text \<open>
  The consumer's \<^verbatim>\<open>run\<close>: whether \<^verbatim>\<open>sarama.NewConsumerGroup\<close> fails, and what the
  \<^verbatim>\<open>select\<close> receives first: the value \<^verbatim>\<open>client.Consume\<close> returned (nil or an error),
  sent on \<^verbatim>\<open>consumeErrors\<close>, or a signal; on a signal, the error of \<^verbatim>\<open>client.Close\<close>.
\<close>

datatype arrival = ConsumeReturned "string option" | Signal string

record consumer_env =
  group_connect :: "string option"
  first :: arrival
  close_error :: "string option"

datatype clog =
    ConsumerStarted
  | ConsumeError "string option"
  | ConsumerShutdownStarted string
  | CloseFailed string
  | ConsumerCompleted

definition consumer_run :: "consumer_env \<Rightarrow> clog list \<times> (fault + unit)" where
  "consumer_run env =
     (case group_connect env of
        Some e \<Rightarrow>
          ([ConsumerCompleted], Inl (Error (''failed to create kafka consumer group: '' @ e)))
      | None \<Rightarrow>
          (case first env of
             ConsumeReturned err \<Rightarrow>
               ([ConsumerStarted, ConsumeError err, ConsumerCompleted], Inr ())
           | Signal sig \<Rightarrow>
               (ConsumerStarted # ConsumerShutdownStarted sig #
                  (case close_error env of Some e \<Rightarrow> [CloseFailed e] | None \<Rightarrow> []) @
                  [ConsumerCompleted],
                Inr ())))"

definition consumer_main :: "consumer_env \<Rightarrow> clog list \<times> int" where
  "consumer_main env = (case consumer_run env of (tr, res) \<Rightarrow> (tr, exit_code res))"

section \<open>Notions used to state the properties\<close>

text \<open>The number a string of decimal digits denotes.\<close>

definition digits_val :: "string \<Rightarrow> nat" where
  "digits_val s = foldl (\<lambda>a c. 10 * a + (of_char c - 48)) 0 s"

text \<open>The player and the routing key of a tick's result.\<close>

definition built_player :: "fault + (gameEvent \<times> producerMessage \<times> rng) \<Rightarrow> string option" where
  "built_player res = (case res of Inl _ \<Rightarrow> None | Inr (ev, _, _) \<Rightarrow> Some (PlayerID ev))"

definition built_key :: "fault + (gameEvent \<times> producerMessage \<times> rng) \<Rightarrow> string option" where
  "built_key res = (case res of Inl _ \<Rightarrow> None | Inr (_, msg, _) \<Rightarrow> Some (Key msg))"

text \<open>
  The wire payload as the specification words it: a flat record of named fields, each an
  integer or a string, in a fixed order. This is the specification's side of the
  comparison with \<open>encode\<close>, which is the source's format string.
\<close>

datatype jvalue = JInt int | JStr string

definition wire_field :: "string \<times> jvalue \<Rightarrow> string" where
  \<open>wire_field f = (case f of (k, JInt n) \<Rightarrow> ''"'' @ k @ ''":'' @ fmt_d n
                    | (k, JStr s) \<Rightarrow> ''"'' @ k @ ''":"'' @ s @ ''"'')\<close>

fun join_comma :: "string list \<Rightarrow> string" where
  "join_comma [] = []"
| "join_comma [x] = x"
| "join_comma (x # y # ys) = x @ '','' @ join_comma (y # ys)"

definition wire_record :: "(string \<times> jvalue) list \<Rightarrow> string" where
  "wire_record fs = ''{'' @ join_comma (map wire_field fs) @ ''}''"

text \<open>A string with no double quote and no backslash: inside quotes it cannot end them.\<close>

definition plain :: "string \<Rightarrow> bool" where
  "plain s = (CHR 0x22 \<notin> set s \<and> CHR 0x5C \<notin> set s)"

text \<open>A tick that stamps the event with the counter and encodes that event as the value.\<close>

definition stamps_id :: "builder \<Rightarrow> bool" where
  "stamps_id build =
     (\<forall>i t r ev msg r'. build i t r = Inr (ev, msg, r') \<longrightarrow> ID ev = i \<and> Value msg = encode ev)"

text \<open>
  Reading a payload as a downstream reader does: the integer of its \<^verbatim>\<open>id\<close> field, the
  text between the opening \<^verbatim>\<open>{"id":\<close> and the first comma, read as a signed decimal.
\<close>

definition is_digit :: "char \<Rightarrow> bool" where
  "is_digit c = (c \<in> set ''0123456789'')"

definition parse_int :: "string \<Rightarrow> int option" where
  "parse_int s =
     (case s of
        [] \<Rightarrow> None
      | c # cs \<Rightarrow>
          if c = CHR ''-'' then
            (if cs \<noteq> [] \<and> list_all is_digit cs then Some (- int (digits_val cs)) else None)
          else if list_all is_digit s then Some (int (digits_val s))
          else None)"

definition payload_id :: "string \<Rightarrow> int option" where
  \<open>payload_id v =
     (if take 6 v = ''{"id":'' then parse_int (takeWhile (\<lambda>c. c \<noteq> CHR '','') (drop 6 v))
      else None)\<close>

text \<open>
  The offers in a trace of \<open>run\<close>, in order, and the messages the transport accepted.
\<close>

definition offers :: "pevent list \<Rightarrow> offer list" where
  "offers tr = concat (map (\<lambda>e. case e of Offered x \<Rightarrow> [x] | _ \<Rightarrow> []) tr)"

definition accepted_messages :: "pevent list \<Rightarrow> producerMessage list" where
  "accepted_messages tr = map message (filter (\<lambda>x. result x = accepted) (offers tr))"

text \<open>
  What a trace of \<open>ConsumeClaim\<close> holds: the messages marked, the sleeps completed and the
  samples logged, each in order.
\<close>

fun marks :: "cevent list \<Rightarrow> consumerMessage list" where
  "marks [] = []"
| "marks (Marked m # es) = m # marks es"
| "marks (e # es) = marks es"

fun sleeps :: "cevent list \<Rightarrow> int list" where
  "sleeps [] = []"
| "sleeps (Slept d # es) = d # sleeps es"
| "sleeps (e # es) = sleeps es"

fun logs :: "cevent list \<Rightarrow> (int \<times> 64 word \<times> string) list" where
  "logs [] = []"
| "logs (Logged p off k # es) = (p, off, k) # logs es"
| "logs (e # es) = logs es"

text \<open>
  A monitor over a trace: every mark uses up one sleep completed before it (\<open>c\<close> counts
  the sleeps completed and not yet used).
\<close>

fun ack_after_work :: "nat \<Rightarrow> cevent list \<Rightarrow> bool" where
  "ack_after_work c [] = True"
| "ack_after_work c (Slept d # es) = ack_after_work (Suc c) es"
| "ack_after_work c (Marked m # es) = (0 < c \<and> ack_after_work (c - 1) es)"
| "ack_after_work c (Logged p off k # es) = ack_after_work c es"

section \<open>Formatting and the random source\<close>

lemma show_nat_lt: "n < 10 \<Longrightarrow> show_nat n = [digit_char n]"
  by (simp add: show_nat.simps)

lemma show_nat_ge: "10 \<le> n \<Longrightarrow> show_nat n = show_nat (n div 10) @ [digit_char (n mod 10)]"
  by (subst show_nat.simps) simp

lemma lt10_cases:
  "d < (10::nat) \<Longrightarrow>
     d = 0 \<or> d = 1 \<or> d = 2 \<or> d = 3 \<or> d = 4 \<or> d = 5 \<or> d = 6 \<or> d = 7 \<or> d = 8 \<or> d = 9"
  by arith

lemma of_char_digit: "d < 10 \<Longrightarrow> (of_char (digit_char d) :: nat) = 48 + d"
  using lt10_cases [of d] by (auto simp: digit_char_def)

lemma digits_val_snoc: "digits_val (s @ [c]) = 10 * digits_val s + (of_char c - 48)"
  by (simp add: digits_val_def)

text \<open>Reading the digits of a number back gives the number, so \<open>show_nat\<close> is injective.\<close>

lemma digits_val_show_nat: "digits_val (show_nat n) = n"
proof (induction n rule: show_nat.induct)
  case (1 n)
  show ?case
  proof (cases "n < 10")
    case True
    then show ?thesis by (simp add: show_nat_lt digits_val_def of_char_digit)
  next
    case False
    with 1 show ?thesis
      by (simp add: show_nat_ge digits_val_snoc of_char_digit)
  qed
qed

lemma digits_val_zeros: "digits_val (replicate k (CHR ''0'') @ s) = digits_val s"
proof -
  have "foldl (\<lambda>a c. 10 * a + (of_char c - 48)) (0::nat) (replicate k (CHR ''0'')) = 0"
    by (induction k) simp_all
  then show ?thesis by (simp add: digits_val_def)
qed

lemma digits_val_pad0: "digits_val (pad0 w (show_nat n)) = n"
  by (simp add: pad0_def digits_val_zeros digits_val_show_nat)

lemma fmt_06d_vip: "0 \<le> n \<Longrightarrow> fmt_06d n = ''000001'' \<longleftrightarrow> n = 1"
proof
  assume n: "0 \<le> n" and e: "fmt_06d n = ''000001''"
  have "digits_val (fmt_06d n) = nat n"
    using n by (simp add: fmt_06d_def digits_val_pad0)
  moreover have "digits_val ''000001'' = 1"
    by (simp add: digits_val_def)
  ultimately show "n = 1" using e n by simp
next
  assume "0 \<le> n" "n = 1"
  then show "fmt_06d n = ''000001''"
    by (simp add: fmt_06d_def pad0_def show_nat_lt digit_char_def numeral_eq_Suc)
qed

lemma player_name_vip: "0 \<le> n \<Longrightarrow> ''player-'' @ fmt_06d n = ''player-000001'' \<longleftrightarrow> n = 1"
  using fmt_06d_vip [of n] by simp

lemma Intn_pos: "0 < n \<Longrightarrow> Intn r n = Inr (int (shd r) mod n, stl r)"
  by (simp add: Intn_def)

lemma Intn_nonpos: "n \<le> 0 \<Longrightarrow> Intn r n = Inl (Panic ''invalid argument to Intn'')"
  by (simp add: Intn_def)

lemma bind_Inr: "bind (Inr x) f = f x"
  by (simp add: bind_def)

lemma bind_Inl: "bind (Inl e) f = Inl e"
  by (simp add: bind_def)

lemma sprintf_player: "sprintf ''player-%06d'' [I n] = ''player-'' @ fmt_06d n"
  by simp

lemma sprintf_game: "sprintf ''game-%d'' [I n] = ''game-'' @ fmt_d n"
  by simp

lemma sprintf_table: "sprintf ''table-%d'' [I n] = ''table-'' @ fmt_d n"
  by simp

lemma sprintf_key: "sprintf ''%s#shard=%d'' [S p, I k] = p @ ''#shard='' @ fmt_d k"
  by simp

section \<open>The tick of each producer, draw by draw\<close>

lemma encode_eq:
  \<open>encode ev =
     ''{"id":'' @ fmt_d (sint (ID ev)) @ '',"player_id":"'' @ PlayerID ev @
     ''","game_id":"'' @ GameID ev @ ''","event_type":"'' @ EventType ev @
     ''","amount":'' @ fmt_d (Amount ev) @ '',"table_id":"'' @ TableID ev @
     ''","ts":'' @ fmt_d (sint (TS ev)) @ ''}''\<close>
  by (simp add: encode_def payload_format_def)

lemma new_event_eq:
  "new_event i p t r =
     Inr (\<lparr>ID = i, PlayerID = p, GameID = ''game-'' @ fmt_d (int (shd r) mod 50),
           EventType = event_types ! nat (int (shd (stl r)) mod 3),
           Amount = 10 + int (shd (stl (stl r))) mod 200,
           TableID = ''table-'' @ fmt_d (int (shd (stl (stl (stl r)))) mod 100),
           TS = t\<rparr>, stl (stl (stl (stl r))))"
  by (simp add: new_event_def pick_def Intn_pos bind_Inr sprintf_game sprintf_table event_types_def
        del: sprintf.simps)

lemma skewed_message_eq:
  "skewed_message topic sp i t r =
     (let p = (if int (shd (stl r)) mod 100 < sp then ''player-000001''
               else ''player-'' @ fmt_06d (int (shd r) mod 200000));
          ev = fst (projr (new_event i p t (stl (stl r))))
      in Inr (ev, \<lparr>Topic = topic, Key = p, Value = encode ev\<rparr>,
              stl (stl (stl (stl (stl (stl r)))))))"
  by (simp add: skewed_message_def Intn_pos bind_Inr sprintf_player new_event_eq Let_def
        del: sprintf.simps)

text \<open>
  Neither the tick of \<^verbatim>\<open>cmd/producer\<close> nor, with \<open>shards > 0\<close>, the tick of
  \<^verbatim>\<open>cmd/producer_balanced\<close> can fail: each yields an event and a message.
\<close>

lemma skewed_message_total:
  "\<exists>ev msg r'. skewed_message topic sp i t r = Inr (ev, msg, r')"
  by (simp add: skewed_message_eq Let_def)

section \<open>Key policies\<close>

text \<open>
  Claim C1, as the code has it. In \<^verbatim>\<open>cmd/producer\<close> the routing key is always the
  player identifier. The first call of a tick draws an identifier from \<open>[0, 200000)\<close>,
  the second draws from \<open>[0, 100)\<close>. When the second draw is below \<open>skewPercent\<close> the
  player and the key are the VIP identifier \<^verbatim>\<open>player-000001\<close>; otherwise both are
  \<^verbatim>\<open>player-\<close> followed by the six digits of the identifier drawn. That identifier
  space contains the VIP's number, so the key is the VIP identifier exactly when the draw
  is below \<open>skewPercent\<close> or the identifier drawn is 1. With \<open>skewPercent \<le> 0\<close> the
  override is never taken; with \<open>100 \<le> skewPercent\<close> every key is the VIP identifier.
\<close>

theorem skewed_key_policy:
  "built_player (skewed_message topic skewPercent i t r) =
     Some (if int (shd (stl r)) mod 100 < skewPercent then vip
           else ''player-'' @ fmt_06d (int (shd r) mod 200000)) \<and>
   built_key (skewed_message topic skewPercent i t r) =
     built_player (skewed_message topic skewPercent i t r) \<and>
   (built_key (skewed_message topic skewPercent i t r) = Some vip \<longleftrightarrow>
      int (shd (stl r)) mod 100 < skewPercent \<or> int (shd r) mod 200000 = 1) \<and>
   (skewPercent \<le> 0 \<longrightarrow>
      built_key (skewed_message topic skewPercent i t r) =
        Some (''player-'' @ fmt_06d (int (shd r) mod 200000))) \<and>
   (100 \<le> skewPercent \<longrightarrow> built_key (skewed_message topic skewPercent i t r) = Some vip)"
proof -
  have d: "0 \<le> int (shd (stl r)) mod 100" "int (shd (stl r)) mod 100 < 100"
    by simp_all
  have n: "0 \<le> int (shd r) mod 200000" by simp
  show ?thesis
    using d player_name_vip [OF n]
    by (simp add: skewed_message_eq built_player_def built_key_def Let_def new_event_eq vip_def
          del: sprintf.simps)
qed

theorem skewed_key_policy_witness:
  "built_key (skewed_message ''game-events'' 100 0 0 (sconst 7)) = Some vip \<and>
   built_key (skewed_message ''game-events'' 0 0 0 (sconst 7)) = Some ''player-000007''"
  using skewed_key_policy [of "''game-events''" 100 0 0 "sconst 7"]
    skewed_key_policy [of "''game-events''" 0 0 0 "sconst 7"]
  by (simp add: fmt_06d_def pad0_def show_nat_lt digit_char_def numeral_eq_Suc)

text \<open>
  Claim C1 as worded fails: with \<open>skewPercent = 0\<close> and a generator that returns 1 at
  every call, the draw of \<open>[0, 100)\<close> is 1, not below 0, and yet the player and the key
  are the VIP identifier, since 1 is the identifier drawn.
\<close>

theorem skewed_vip_without_override:
  "built_player (skewed_message ''game-events'' 0 0 0 (sconst 1)) = Some ''player-000001'' \<and>
   built_key (skewed_message ''game-events'' 0 0 0 (sconst 1)) = Some ''player-000001'' \<and>
   \<not> int (shd (stl (sconst 1))) mod 100 < 0"
  by (simp add: skewed_message_eq built_player_def built_key_def Let_def new_event_eq
        fmt_06d_def pad0_def show_nat_lt digit_char_def numeral_eq_Suc del: sprintf.simps)

lemma replicate_numeral: "replicate (numeral k) x = x # replicate (pred_numeral k) x"
  by (simp add: numeral_eq_Suc)

lemma balanced_player_eq:
  "bind (Intn r 100) (\<lambda>(d, r).
     bind (if d \<ge> 95 then bind (Intn r 200000) (\<lambda>(n, r). Inr (sprintf ''player-%06d'' [I n], r))
           else Inr (''player-000001'', r)) f) =
   f (if int (shd r) mod 100 < 95 then (''player-000001'', stl r)
      else (''player-'' @ fmt_06d (int (shd (stl r)) mod 200000), stl (stl r)))"
  by (simp add: Intn_pos bind_Inr sprintf_player del: sprintf.simps)

lemma balanced_message_eq:
  "balanced_message topic shards i t r =
     (let p = (if int (shd r) mod 100 < 95 then ''player-000001''
               else ''player-'' @ fmt_06d (int (shd (stl r)) mod 200000));
          r1 = (if int (shd r) mod 100 < 95 then stl r else stl (stl r));
          ev = fst (projr (new_event i p t r1));
          r2 = stl (stl (stl (stl r1)))
      in if shards \<le> 0 then Inl (Panic ''invalid argument to Intn'')
         else Inr (ev, \<lparr>Topic = topic, Key = p @ ''#shard='' @ fmt_d (int (shd r2) mod shards),
                         Value = encode ev\<rparr>, stl r2))"
  unfolding balanced_message_def balanced_player_eq
  by (simp add: Intn_def bind_Inr bind_Inl new_event_eq sprintf_key Let_def del: sprintf.simps)

lemma balanced_message_total:
  "0 < shards \<Longrightarrow> \<exists>ev msg r'. balanced_message topic shards i t r = Inr (ev, msg, r')"
  by (simp add: balanced_message_eq Let_def)

text \<open>
  Claim C2, as the code has it. In \<^verbatim>\<open>cmd/producer_balanced\<close> the weight of the VIP
  is the constant 95: the player is the VIP identifier when the draw of \<open>[0, 100)\<close> is
  below 95, and otherwise \<^verbatim>\<open>player-\<close> followed by the six-digit identifier drawn from
  \<open>[0, 200000)\<close>, which is the VIP identifier again when 1 is drawn. For every
  \<open>shards > 0\<close> the key is the player, the literal \<^verbatim>\<open>#shard=\<close> and the shard index, the
  next draw reduced into \<open>[0, shards)\<close> (the sixth or the seventh call of the tick).
\<close>

theorem sharded_key_policy:
  "0 < shards \<Longrightarrow>
   built_player (balanced_message topic shards i t r) =
     Some (if int (shd r) mod 100 < 95 then vip
           else ''player-'' @ fmt_06d (int (shd (stl r)) mod 200000)) \<and>
   (built_player (balanced_message topic shards i t r) = Some vip \<longleftrightarrow>
      int (shd r) mod 100 < 95 \<or> int (shd (stl r)) mod 200000 = 1) \<and>
   (\<exists>p s. built_player (balanced_message topic shards i t r) = Some p \<and>
      s = int (r !! (if int (shd r) mod 100 < 95 then 5 else 6)) mod shards \<and>
      0 \<le> s \<and> s < shards \<and>
      built_key (balanced_message topic shards i t r) = Some (p @ ''#shard='' @ fmt_d s))"
proof -
  assume sh: "0 < shards"
  have n: "0 \<le> int (shd (stl r)) mod 200000" by simp
  have five: "r !! 5 = shd (stl (stl (stl (stl (stl r)))))"
    and six: "r !! 6 = shd (stl (stl (stl (stl (stl (stl r))))))"
    by (simp_all add: numeral_eq_Suc)
  show ?thesis
    using sh player_name_vip [OF n]
    by (simp add: balanced_message_eq built_player_def built_key_def Let_def new_event_eq vip_def
          five six del: sprintf.simps)
qed

theorem sharded_key_policy_witness:
  "built_key (balanced_message ''game-events'' 16 0 0 (sconst 9)) = Some ''player-000001#shard=9'' \<and>
   built_key (balanced_message ''game-events'' 16 0 0 (sconst 97)) = Some ''player-000097#shard=1''"
  using sharded_key_policy [of 16 "''game-events''" 0 0 "sconst 9"]
    sharded_key_policy [of 16 "''game-events''" 0 0 "sconst 97"]
  by (auto simp: vip_def fmt_d_def fmt_06d_def pad0_def show_nat_lt show_nat_ge digit_char_def
        replicate_numeral)

text \<open>
  Claim C2 as worded fails: the first draw is 95, so the branch of the other players is
  taken, and the identifier drawn there is 1: the player selected is the VIP identifier.
\<close>

theorem sharded_vip_in_other_branch:
  "built_player (balanced_message ''game-events'' 16 0 0 (95 ## sconst 1)) = Some ''player-000001'' \<and>
   built_key (balanced_message ''game-events'' 16 0 0 (95 ## sconst 1)) = Some ''player-000001#shard=1'' \<and>
   \<not> int (shd (95 ## sconst 1)) mod 100 < 95"
  by (simp add: balanced_message_eq built_player_def built_key_def Let_def new_event_eq
        fmt_d_def fmt_06d_def pad0_def show_nat_lt digit_char_def numeral_eq_Suc del: sprintf.simps)

section \<open>The wire payload\<close>

lemma plain_append: "plain (a @ b) \<longleftrightarrow> plain a \<and> plain b"
  by (auto simp: plain_def)

lemma plain_digit: "d < 10 \<Longrightarrow> plain [digit_char d]"
  using lt10_cases [of d] by (auto simp: plain_def digit_char_def)

lemma plain_show_nat: "plain (show_nat n)"
proof (induction n rule: show_nat.induct)
  case (1 n)
  show ?case
  proof (cases "n < 10")
    case True
    then show ?thesis by (simp add: show_nat_lt plain_digit)
  next
    case False
    with 1 show ?thesis by (simp add: show_nat_ge plain_append plain_digit)
  qed
qed

lemma plain_fmt_d: "plain (fmt_d n)"
  using plain_show_nat by (simp add: fmt_d_def plain_def)

lemma plain_fmt_06d: "plain (fmt_06d n)"
  using plain_show_nat by (auto simp: fmt_06d_def pad0_def plain_def)

lemma plain_event_type: "k < 3 \<Longrightarrow> plain (event_types ! k)"
proof -
  assume "k < 3"
  then have "k = 0 \<or> k = 1 \<or> k = 2" by arith
  then show ?thesis by (auto simp: event_types_def plain_def)
qed

lemma wire_record_seven:
  \<open>wire_record [(''id'', JInt a), (''player_id'', JStr b), (''game_id'', JStr c),
      (''event_type'', JStr d), (''amount'', JInt e), (''table_id'', JStr f), (''ts'', JInt g)] =
     ''{"id":'' @ fmt_d a @ '',"player_id":"'' @ b @
     ''","game_id":"'' @ c @ ''","event_type":"'' @ d @
     ''","amount":'' @ fmt_d e @ '',"table_id":"'' @ f @
     ''","ts":'' @ fmt_d g @ ''}''\<close>
  by (simp add: wire_record_def wire_field_def)

lemma plain_Cons: "plain (c # s) \<longleftrightarrow> c \<noteq> CHR 0x22 \<and> c \<noteq> CHR 0x5C \<and> plain s"
  by (auto simp: plain_def)

lemma event_payload:
  assumes ev: "ev = fst (projr (new_event i p t r))" and p: "plain p"
  shows "encode ev =
           wire_record [(''id'', JInt (sint (ID ev))), (''player_id'', JStr (PlayerID ev)),
             (''game_id'', JStr (GameID ev)), (''event_type'', JStr (EventType ev)),
             (''amount'', JInt (Amount ev)), (''table_id'', JStr (TableID ev)),
             (''ts'', JInt (sint (TS ev)))] \<and>
         10 \<le> Amount ev \<and> Amount ev < 210 \<and>
         plain (PlayerID ev) \<and> plain (GameID ev) \<and> plain (EventType ev) \<and> plain (TableID ev)"
proof -
  have k: "nat (int (shd (stl r)) mod 3) < 3" by simp
  have a: "0 \<le> int (shd (stl (stl r))) mod 200" "int (shd (stl (stl r))) mod 200 < 200"
    by simp_all
  have "encode ev = wire_record [(''id'', JInt (sint (ID ev))), (''player_id'', JStr (PlayerID ev)),
             (''game_id'', JStr (GameID ev)), (''event_type'', JStr (EventType ev)),
             (''amount'', JInt (Amount ev)), (''table_id'', JStr (TableID ev)),
             (''ts'', JInt (sint (TS ev)))]"
    unfolding wire_record_seven encode_eq by (rule refl)
  moreover have "10 \<le> Amount ev \<and> Amount ev < 210"
    using a by (simp add: ev new_event_eq)
  moreover have "plain (PlayerID ev)"
    using p by (simp add: ev new_event_eq)
  moreover have "plain (GameID ev)" "plain (TableID ev)"
    by (simp_all add: ev new_event_eq plain_Cons plain_fmt_d)
  moreover have "plain (EventType ev)"
    using plain_event_type [OF k] by (simp add: ev new_event_eq)
  ultimately show ?thesis by simp
qed

lemma plain_player: "plain ''player-000001''" "plain (''player-'' @ fmt_06d n)"
  by (simp_all add: plain_Cons plain_fmt_06d) (simp add: plain_def)

text \<open>
  Claim C9. For every event either producer builds, the value of the message is the flat
  record of exactly the seven fields \<^verbatim>\<open>id\<close>, \<^verbatim>\<open>player_id\<close>, \<^verbatim>\<open>game_id\<close>,
  \<^verbatim>\<open>event_type\<close>, \<^verbatim>\<open>amount\<close>, \<^verbatim>\<open>table_id\<close>, \<^verbatim>\<open>ts\<close> in that order, the
  amount is an integer of \<open>[10, 210)\<close>, and no string field holds a character that would
  end its quotes.
\<close>

theorem wire_payload_fields:
  assumes "skewed_message topic skewPercent i t r = Inr (ev, msg, r') \<or>
           balanced_message topic shards i t r = Inr (ev, msg, r')"
  shows "Value msg =
           wire_record [(''id'', JInt (sint (ID ev))), (''player_id'', JStr (PlayerID ev)),
             (''game_id'', JStr (GameID ev)), (''event_type'', JStr (EventType ev)),
             (''amount'', JInt (Amount ev)), (''table_id'', JStr (TableID ev)),
             (''ts'', JInt (sint (TS ev)))] \<and>
         10 \<le> Amount ev \<and> Amount ev < 210 \<and>
         plain (PlayerID ev) \<and> plain (GameID ev) \<and> plain (EventType ev) \<and> plain (TableID ev)"
proof -
  from assms obtain p r0 where ev: "ev = fst (projr (new_event i p t r0))" and p: "plain p"
    and v: "Value msg = encode ev"
  proof
    assume s: "skewed_message topic skewPercent i t r = Inr (ev, msg, r')"
    show ?thesis
    proof (rule that)
      show "ev = fst (projr (new_event i (if int (shd (stl r)) mod 100 < skewPercent then ''player-000001''
               else ''player-'' @ fmt_06d (int (shd r) mod 200000)) t (stl (stl r))))"
        using s unfolding skewed_message_eq Let_def by simp
      show "plain (if int (shd (stl r)) mod 100 < skewPercent then ''player-000001''
               else ''player-'' @ fmt_06d (int (shd r) mod 200000))"
        using plain_player by simp
      show "Value msg = encode ev"
        using s unfolding skewed_message_eq Let_def by auto
    qed
  next
    assume s: "balanced_message topic shards i t r = Inr (ev, msg, r')"
    show ?thesis
    proof (rule that)
      show "ev = fst (projr (new_event i (if int (shd r) mod 100 < 95 then ''player-000001''
               else ''player-'' @ fmt_06d (int (shd (stl r)) mod 200000)) t
               (if int (shd r) mod 100 < 95 then stl r else stl (stl r))))"
        using s unfolding balanced_message_eq Let_def by (simp split: if_splits)
      show "plain (if int (shd r) mod 100 < 95 then ''player-000001''
               else ''player-'' @ fmt_06d (int (shd (stl r)) mod 200000))"
        using plain_player by simp
      show "Value msg = encode ev"
        using s unfolding balanced_message_eq Let_def by (auto split: if_splits)
    qed
  qed
  show ?thesis
    using event_payload [OF ev p] v by simp
qed

theorem wire_payload_fields_witness:
  "(\<exists>ev msg r'. skewed_message ''game-events'' 95 0 0 (sconst 7) = Inr (ev, msg, r') \<and>
      Amount ev = 17 \<and>
      Value msg =
        wire_record [(''id'', JInt 0), (''player_id'', JStr ''player-000001''),
          (''game_id'', JStr ''game-7''), (''event_type'', JStr ''hand_finished''),
          (''amount'', JInt 17), (''table_id'', JStr ''table-7''), (''ts'', JInt 0)])"
proof -
  obtain ev msg r' where s: "skewed_message ''game-events'' 95 0 0 (sconst 7) = Inr (ev, msg, r')"
    by (simp add: skewed_message_eq Let_def)
  have e: "ev = \<lparr>ID = 0, PlayerID = ''player-000001'', GameID = ''game-7'',
       EventType = ''hand_finished'', Amount = 17, TableID = ''table-7'', TS = 0\<rparr>"
    using s by (simp add: skewed_message_eq Let_def new_event_eq event_types_def fmt_d_def
         show_nat_lt digit_char_def)
  show ?thesis
    using wire_payload_fields [of "''game-events''" 95 0 0 "sconst 7" ev msg r' 16] s e
    by simp
qed

section \<open>The non-blocking send and the sequence counter\<close>

lemma try_send_full: "chan_full ch \<Longrightarrow> try_send ch m = (dropped, ch)"
  by (simp add: try_send_def chan_full_def)

lemma try_send_room:
  "\<not> chan_full ch \<Longrightarrow>
     try_send ch m =
       (accepted, if 0 < recvq ch then ch\<lparr>recvq := recvq ch - 1, received := received ch @ [m]\<rparr>
                  else ch\<lparr>buf := buf ch @ [m]\<rparr>)"
  by (auto simp: try_send_def chan_full_def)

lemma generate_Cons:
  "build i (now t) r = Inr (ev, msg, r') \<Longrightarrow>
   generate build (t # ts) r i =
     (\<lparr>event = ev, message = msg, result = fst (try_send (input t) msg),
        input_after = snd (try_send (input t) msg)\<rparr> #
        fst (generate build ts r' (if fst (try_send (input t) msg) = accepted then i + 1 else i)),
      snd (generate build ts r' (if fst (try_send (input t) msg) = accepted then i + 1 else i)))"
  by (cases "try_send (input t) msg"; cases "fst (try_send (input t) msg)")
     (auto split: prod.splits)

lemma generate_Cons_fault:
  "build i (now t) r = Inl e \<Longrightarrow> generate build (t # ts) r i = ([], Some e)"
  by simp

text \<open>
  Claim C6. A record offered while the transport's input is full is dropped at once and
  the input is left as it was; the tick ends there, the counter keeps its value and the
  loop goes on with the next tick, without the record being queued or offered again. A
  record offered while the input has room is accepted: it is appended to the buffer or
  handed to a waiting receiver, and the counter is incremented.
\<close>

theorem publish_sink_drops_when_full:
  "(chan_full ch \<longrightarrow> try_send ch m = (dropped, ch)) \<and>
   (\<not> chan_full ch \<longrightarrow>
      fst (try_send ch m) = accepted \<and>
      (buf (snd (try_send ch m)) = buf ch @ [m] \<or>
       received (snd (try_send ch m)) = received ch @ [m])) \<and>
   (build i (now t) r = Inr (ev, msg, r') \<and> chan_full (input t) \<longrightarrow>
      generate build (t # ts) r i =
        (\<lparr>event = ev, message = msg, result = dropped, input_after = input t\<rparr> #
           fst (generate build ts r' i),
         snd (generate build ts r' i))) \<and>
   (build i (now t) r = Inr (ev, msg, r') \<and> \<not> chan_full (input t) \<longrightarrow>
      generate build (t # ts) r i =
        (\<lparr>event = ev, message = msg, result = accepted,
           input_after = snd (try_send (input t) msg)\<rparr> #
           fst (generate build ts r' (i + 1)),
         snd (generate build ts r' (i + 1))))"
  by (auto simp: try_send_full try_send_room generate_Cons simp del: generate.simps)


theorem publish_sink_drops_when_full_witness:
  "map result (fst (generate (skewed_message ''game-events'' 95)
      [\<lparr>now = 0, input = \<lparr>buf = [], cap = 0, recvq = 0, received = []\<rparr>\<rparr>] (sconst 7) 0)) = [dropped] \<and>
   map result (fst (generate (skewed_message ''game-events'' 95)
      [\<lparr>now = 0, input = \<lparr>buf = [], cap = 0, recvq = 1, received = []\<rparr>\<rparr>] (sconst 7) 0)) = [accepted]"
proof -
  let ?full = "\<lparr>now = 0, input = \<lparr>buf = [], cap = 0, recvq = 0, received = []\<rparr>\<rparr>"
  let ?room = "\<lparr>now = 0, input = \<lparr>buf = [], cap = 0, recvq = 1, received = []\<rparr>\<rparr>"
  obtain ev msg r' where
    s: "skewed_message ''game-events'' 95 0 0 (sconst 7) = Inr (ev, msg, r')"
    by (simp add: skewed_message_eq Let_def)
  have f: "chan_full (input ?full)" and g: "\<not> chan_full (input ?room)"
    by (simp_all add: chan_full_def)
  have "map result (fst (generate (skewed_message ''game-events'' 95) [?full] (sconst 7) 0)) = [dropped]"
    using publish_sink_drops_when_full
      [of "input ?full" msg "skewed_message ''game-events'' 95" 0 ?full "sconst 7" ev msg r' "[]"] s f
    by simp
  moreover
  have "map result (fst (generate (skewed_message ''game-events'' 95) [?room] (sconst 7) 0)) = [accepted]"
    using publish_sink_drops_when_full
      [of "input ?room" msg "skewed_message ''game-events'' 95" 0 ?room "sconst 7" ev msg r' "[]"] s g
    by simp
  ultimately show ?thesis by simp
qed


lemma skewed_stamps_id: "stamps_id (skewed_message topic sp)"
  by (auto simp: stamps_id_def skewed_message_eq Let_def new_event_eq)

lemma balanced_stamps_id: "stamps_id (balanced_message topic shards)"
  by (auto simp: stamps_id_def balanced_message_eq Let_def new_event_eq split: if_splits)

lemma generate_length: "length (fst (generate build ts r i)) \<le> length ts"
proof (induction ts arbitrary: r i)
  case Nil
  show ?case by simp
next
  case (Cons t ts)
  show ?case
  proof (cases "build i (now t) r")
    case (Inl e)
    then show ?thesis by simp
  next
    case (Inr x)
    then obtain ev msg r' where b: "build i (now t) r = Inr (ev, msg, r')"
      by (cases x) auto
    show ?thesis
      using Cons.IH [of r'] by (simp add: generate_Cons [of build i t r ev msg r', OF b] del: generate.simps)
  qed
qed

lemma generate_head:
  assumes "stamps_id build" and "fst (generate build ts r i) = x # xs"
  shows "ID (event x) = i \<and> Value (message x) = encode (event x)"
proof (cases ts)
  case Nil
  with assms show ?thesis by simp
next
  case (Cons t ts')
  show ?thesis
  proof (cases "build i (now t) r")
    case (Inl e)
    with assms Cons show ?thesis by simp
  next
    case (Inr y)
    then obtain ev msg r' where b: "build i (now t) r = Inr (ev, msg, r')"
      by (cases y) auto
    with assms(1) have "ID ev = i \<and> Value msg = encode ev"
      unfolding stamps_id_def by blast
    with assms(2) Cons show ?thesis
      by (auto simp: generate_Cons [of build i t r ev msg r', OF b] simp del: generate.simps)
  qed
qed

lemma upt_shift: "map f [0..<Suc n] = f 0 # map (\<lambda>k. f (Suc k)) [0..<n]"
  by (simp add: map_upt_Suc del: upt_Suc)

lemma generate_accepted_ids:
  assumes "stamps_id build"
  shows "map (\<lambda>x. ID (event x)) (filter (\<lambda>x. result x = accepted) (fst (generate build ts r i))) =
         map (\<lambda>k. i + word_of_nat k)
           [0..<length (filter (\<lambda>x. result x = accepted) (fst (generate build ts r i)))]"
proof (induction ts arbitrary: r i)
  case Nil
  show ?case by simp
next
  case (Cons t ts)
  show ?case
  proof (cases "build i (now t) r")
    case (Inl e)
    then show ?thesis by simp
  next
    case (Inr y)
    then obtain ev msg r' where b: "build i (now t) r = Inr (ev, msg, r')"
      by (cases y) auto
    with assms have id: "ID ev = i"
      unfolding stamps_id_def by blast
    show ?thesis
    proof (cases "fst (try_send (input t) msg) = accepted")
      case True
      then show ?thesis
        using Cons.IH [of r' "i + 1"] id
        by (simp add: generate_Cons [of build i t r ev msg r', OF b] upt_shift add.assoc del: generate.simps upt_Suc)
    next
      case False
      then show ?thesis
        using Cons.IH [of r' i]
        by (simp add: generate_Cons [of build i t r ev msg r', OF b] del: generate.simps upt_Suc)
    qed
  qed
qed

lemma generate_next_id:
  assumes "stamps_id build"
  shows "Suc k < length (fst (generate build ts r i)) \<Longrightarrow>
         ID (event (fst (generate build ts r i) ! Suc k)) =
           (if result (fst (generate build ts r i) ! k) = accepted
            then ID (event (fst (generate build ts r i) ! k)) + 1
            else ID (event (fst (generate build ts r i) ! k)))"
proof (induction ts arbitrary: r i k)
  case Nil
  then show ?case by simp
next
  case (Cons t ts)
  show ?case
  proof (cases "build i (now t) r")
    case (Inl e)
    with Cons.prems show ?thesis by simp
  next
    case (Inr y)
    then obtain ev msg r' where b: "build i (now t) r = Inr (ev, msg, r')"
      by (cases y) auto
    with assms have id: "ID ev = i"
      unfolding stamps_id_def by blast
    let ?j = "if fst (try_send (input t) msg) = accepted then i + 1 else i"
    let ?rest = "fst (generate build ts r' ?j)"
    have g: "fst (generate build (t # ts) r i) =
        \<lparr>event = ev, message = msg, result = fst (try_send (input t) msg),
          input_after = snd (try_send (input t) msg)\<rparr> # ?rest"
      by (simp add: generate_Cons [of build i t r ev msg r', OF b] del: generate.simps)
    show ?thesis
    proof (cases k)
      case 0
      with Cons.prems g obtain x xs where r: "?rest = x # xs"
        by (cases ?rest) (auto simp del: generate.simps)
      from generate_head [OF assms r] have "ID (event x) = ?j" by simp
      with 0 g r id show ?thesis by (simp del: generate.simps)
    next
      case (Suc k')
      with Cons.prems g have "Suc k' < length ?rest" by (simp del: generate.simps)
      from Cons.IH [OF this] Suc g show ?thesis by (simp del: generate.simps)
    qed
  qed
qed


lemma generate_values:
  assumes "stamps_id build"
  shows "x \<in> set (fst (generate build ts r i)) \<Longrightarrow> Value (message x) = encode (event x)"
proof (induction ts arbitrary: r i)
  case Nil
  then show ?case by simp
next
  case (Cons t ts)
  show ?case
  proof (cases "build i (now t) r")
    case (Inl e)
    with Cons.prems show ?thesis by simp
  next
    case (Inr y)
    then obtain ev msg r' where b: "build i (now t) r = Inr (ev, msg, r')"
      by (cases y) auto
    with assms have v: "Value msg = encode ev"
      unfolding stamps_id_def by blast
    from Cons.prems Cons.IH v show ?thesis
      by (auto simp: generate_Cons [of build i t r ev msg r', OF b] simp del: generate.simps)
  qed
qed

lemma sint_small:
  assumes "k < 2 ^ 63"
  shows "sint (word_of_nat k :: 64 word) = int k"
proof -
  have "int k < int (2 ^ 63)"
    using assms by (simp only: of_nat_less_iff)
  then have u: "int k < 2 ^ 63" by simp
  have "- (2 ^ 63) \<le> (0::int)" by simp
  also have "0 \<le> int k" by simp
  finally have l: "- (2 ^ 63) \<le> int k" .
  show ?thesis
    using signed_take_bit_int_eq_self [OF l u] by (simp add: signed_of_nat)
qed


section \<open>Start-up of the producers\<close>

lemma go_div_nonpos:
  "rate \<le> 0 \<Longrightarrow> \<exists>m. bind (go_div Second rate) NewTicker = Inl (Panic m)"
proof -
  assume r: "rate \<le> 0"
  show ?thesis
  proof (cases "rate = 0")
    case True
    then show ?thesis by (simp add: go_div_def bind_def)
  next
    case False
    with r have neg: "rate < 0" by simp
    from neg have "0 < \<bar>rate\<bar>" by simp
    then have "0 \<le> \<bar>Second\<bar> div \<bar>rate\<bar>"
      by (simp add: pos_imp_zdiv_nonneg_iff)
    then have "go_quot Second rate \<le> 0"
      using neg by (simp add: go_quot_def Second_def)
    with False show ?thesis by (simp add: go_div_def bind_def NewTicker_def)
  qed
qed

lemma run_nonpos_rate:
  assumes "rate \<le> 0"
  shows "(\<exists>e. run build env rate = ([Completed], Inl (Error e))) \<or>
         (\<exists>m. run build env rate = ([ProducerStarted, Completed], Inl (Panic m)))"
proof (cases "connect env")
  case (Some e)
  then show ?thesis by (simp add: run_def)
next
  case None
  from go_div_nonpos [OF assms] obtain m where "bind (go_div Second rate) NewTicker = Inl (Panic m)" ..
  with None show ?thesis by (simp add: run_def)
qed

text \<open>
  Claim C4. With a rate of zero or less neither producer reaches its generation
  goroutine: \<^verbatim>\<open>run\<close> returns the connection error, or it panics while it creates the
  ticker (the division by a zero rate, or \<^verbatim>\<open>NewTicker\<close> on the interval of a negative
  rate, which is zero or negative). The process exits with status 1 or 2, the goroutine is
  never started and no record is offered.
\<close>

theorem nonpositive_rate_exits_before_task:
  assumes "rate \<le> 0"
  shows "snd (producer_main env topic rate skewPercent) \<noteq> 0 \<and>
         (snd (producer_main env topic rate skewPercent) = 1 \<or>
          snd (producer_main env topic rate skewPercent) = 2) \<and>
         TaskStarted \<notin> set (fst (producer_main env topic rate skewPercent)) \<and>
         (\<forall>x. Offered x \<notin> set (fst (producer_main env topic rate skewPercent))) \<and>
         snd (balanced_main env topic rate shards) \<noteq> 0 \<and>
         (snd (balanced_main env topic rate shards) = 1 \<or>
          snd (balanced_main env topic rate shards) = 2) \<and>
         TaskStarted \<notin> set (fst (balanced_main env topic rate shards)) \<and>
         (\<forall>x. Offered x \<notin> set (fst (balanced_main env topic rate shards)))"
  using run_nonpos_rate [OF assms, of "skewed_message topic skewPercent" env]
    run_nonpos_rate [OF assms, of "balanced_message topic shards" env]
  by (auto simp: producer_main_def balanced_main_def producer_run_def balanced_run_def exit_code_def)

theorem nonpositive_rate_exits_before_task_witness:
  "producer_main \<lparr>connect = None, seed = sconst 7, ticks = [], close_in_time = True\<rparr>
     ''game-events'' 0 95 = ([ProducerStarted, Completed], 2) \<and>
   balanced_main \<lparr>connect = None, seed = sconst 7, ticks = [], close_in_time = True\<rparr>
     ''game-events'' (- 5) 16 = ([ProducerStarted, Completed], 2)"
proof -
  let ?env = "\<lparr>connect = None, seed = sconst 7, ticks = [], close_in_time = True\<rparr>"
  have a: "producer_main ?env ''game-events'' 0 95 = ([ProducerStarted, Completed], 2)"
    by (simp add: producer_main_def producer_run_def run_def go_div_def bind_def exit_code_def)
  have b: "balanced_main ?env ''game-events'' (- 5) 16 = ([ProducerStarted, Completed], 2)"
    by (simp add: balanced_main_def balanced_run_def run_def go_div_def go_quot_def Second_def
          NewTicker_def bind_def exit_code_def)
  have "(0::int) \<le> 0" "(- 5::int) \<le> 0" by simp_all
  from nonpositive_rate_exits_before_task [OF this(1), of ?env "''game-events''" 95 16]
    nonpositive_rate_exits_before_task [OF this(2), of ?env "''game-events''" 95 16] a b
  show ?thesis by simp
qed

lemma ticker_ok:
  assumes "0 < rate" and "rate \<le> 1000000000"
  shows "bind (go_div Second rate) NewTicker = Inr (Second div rate)"
proof -
  have q: "go_quot Second rate = Second div rate"
    using assms by (simp add: go_quot_def Second_def)
  have "rate \<le> Second" using assms by (simp add: Second_def)
  then have "0 < Second div rate"
    using assms(1) by (simp add: pos_imp_zdiv_pos_iff)
  with assms q show ?thesis
    by (simp add: go_div_def NewTicker_def bind_def)
qed

lemma balanced_message_panics:
  "shards \<le> 0 \<Longrightarrow> balanced_message topic shards i t r = Inl (Panic ''invalid argument to Intn'')"
  by (simp add: balanced_message_eq Let_def)

lemma generate_panics:
  assumes "\<And>i t r. build i t r = Inl e"
  shows "generate build ts r i = ([], if ts = [] then None else Some e)"
  using assms by (cases ts) simp_all

text \<open>
  Claim C5, as the code has it. The balanced producer does not check \<open>shards\<close>. With
  a valid rate and a successful connection the generation goroutine is started; at the
  first tick \<^verbatim>\<open>r.Intn(shards)\<close> panics, which ends the process with status 2 before any
  record is offered. When the signal arrives before the first tick, the process shuts
  down with status 0.
\<close>

theorem nonpositive_shards_panic_at_first_tick:
  assumes "shards \<le> 0" and "0 < rate" and "rate \<le> 1000000000" and "connect env = None"
  shows "TaskStarted \<in> set (fst (balanced_main env topic rate shards)) \<and>
         (\<forall>x. Offered x \<notin> set (fst (balanced_main env topic rate shards))) \<and>
         (ticks env \<noteq> [] \<longrightarrow>
            balanced_main env topic rate shards = ([ProducerStarted, TaskStarted], 2)) \<and>
         (ticks env = [] \<longrightarrow> snd (balanced_main env topic rate shards) = 0)"
proof -
  have g: "generate (balanced_message topic shards) (ticks env) (seed env) 0 =
      ([], if ticks env = [] then None else Some (Panic ''invalid argument to Intn''))"
    by (rule generate_panics) (rule balanced_message_panics [OF assms(1)])
  show ?thesis
    using assms(4)
    by (simp add: balanced_main_def balanced_run_def run_def ticker_ok [OF assms(2,3)] g
          exit_code_def)
qed

theorem nonpositive_shards_panic_at_first_tick_witness:
  "balanced_main
     \<lparr>connect = None, seed = sconst 7,
        ticks = [\<lparr>now = 0, input = \<lparr>buf = [], cap = 0, recvq = 1, received = []\<rparr>\<rparr>],
        close_in_time = True\<rparr> ''game-events'' 400 (- 1) = ([ProducerStarted, TaskStarted], 2)"
proof -
  let ?env = "\<lparr>connect = None, seed = sconst 7,
        ticks = [\<lparr>now = 0, input = \<lparr>buf = [], cap = 0, recvq = 1, received = []\<rparr>\<rparr>],
        close_in_time = True\<rparr>"
  have "(- 1::int) \<le> 0" "(0::int) < 400" "(400::int) \<le> 1000000000" "connect ?env = None"
    by simp_all
  from nonpositive_shards_panic_at_first_tick [OF this, of "''game-events''"]
  show ?thesis by simp
qed

text \<open>
  Claim C5 as worded fails: with \<open>shards = 0\<close> and rate 400 the generation goroutine is
  started, and the process ends at the first tick.
\<close>

theorem zero_shards_task_started:
  "balanced_main
     \<lparr>connect = None, seed = sconst 7,
        ticks = [\<lparr>now = 0, input = \<lparr>buf = [], cap = 0, recvq = 1, received = []\<rparr>\<rparr>],
        close_in_time = True\<rparr> ''game-events'' 400 0 = ([ProducerStarted, TaskStarted], 2)"
  by (simp add: balanced_main_def balanced_run_def run_def go_div_def go_quot_def Second_def
        NewTicker_def bind_def balanced_message_panics exit_code_def)

section \<open>The ids the accepted records carry\<close>

lemma is_digit_digit_char: "d < 10 \<Longrightarrow> is_digit (digit_char d)"
  using lt10_cases [of d] by (auto simp: is_digit_def digit_char_def)

lemma show_nat_digits: "list_all is_digit (show_nat n)"
proof (induction n rule: show_nat.induct)
  case (1 n)
  show ?case
  proof (cases "n < 10")
    case True
    then show ?thesis by (simp add: show_nat_lt is_digit_digit_char)
  next
    case False
    with 1 show ?thesis by (simp add: show_nat_ge is_digit_digit_char)
  qed
qed

lemma show_nat_nonempty: "show_nat n \<noteq> []"
  by (cases "n < 10") (simp_all add: show_nat_lt show_nat_ge)

lemma parse_int_show_nat: "parse_int (show_nat n) = Some (int n)"
proof (cases "show_nat n")
  case Nil
  with show_nat_nonempty show ?thesis by simp
next
  case (Cons c cs)
  with show_nat_digits [of n] have "is_digit c" by simp
  then have "c \<noteq> CHR ''-''" by (auto simp: is_digit_def)
  with Cons show_nat_digits [of n] digits_val_show_nat [of n] show ?thesis
    by (simp add: parse_int_def)
qed

lemma parse_int_fmt_d: "parse_int (fmt_d n) = Some n"
proof (cases "n < 0")
  case True
  then show ?thesis
    by (simp add: fmt_d_def parse_int_def show_nat_nonempty show_nat_digits digits_val_show_nat)
next
  case False
  then show ?thesis by (simp add: fmt_d_def parse_int_show_nat)
qed

lemma is_digit_plain: "is_digit c \<Longrightarrow> c \<noteq> CHR '','' \<and> c \<noteq> CHR ''-''"
  by (auto simp: is_digit_def)

lemma fmt_d_no_comma: "c \<in> set (fmt_d n) \<Longrightarrow> c \<noteq> CHR '',''"
proof -
  assume c: "c \<in> set (fmt_d n)"
  have d: "x \<in> set (show_nat k) \<Longrightarrow> is_digit x" for x k
    using show_nat_digits [of k] by (simp add: list_all_iff)
  show ?thesis
  proof (cases "n < 0")
    case True
    with c have "c = CHR ''-'' \<or> c \<in> set (show_nat (nat (- n)))"
      by (simp add: fmt_d_def)
    then show ?thesis using d is_digit_plain by auto
  next
    case False
    with c have "c \<in> set (show_nat (nat n))"
      by (simp add: fmt_d_def)
    then show ?thesis using d is_digit_plain by blast
  qed
qed

lemma payload_id_encode: "payload_id (encode ev) = Some (sint (ID ev))"
proof -
  have t: "takeWhile (\<lambda>c. c \<noteq> CHR '','') (fmt_d n @ CHR '','' # rest) = fmt_d n" for n rest
    using fmt_d_no_comma [of _ n] by (simp add: takeWhile_append2)
  show ?thesis
    by (simp add: payload_id_def encode_eq t parse_int_fmt_d)
qed

lemma offers_Offered: "offers (map Offered os @ es) = os @ offers es"
  by (induction os) (simp_all add: offers_def)

lemma offers_map: "offers (map Offered os) = os"
  using offers_Offered [of os "[]"] by (simp add: offers_def)

lemma offers_simps:
  "offers [] = []"
  "offers (Offered x # es) = x # offers es"
  "offers (ProducerStarted # es) = offers es"
  "offers (TaskStarted # es) = offers es"
  "offers (ShutdownStarted # es) = offers es"
  "offers (ClosedCleanly # es) = offers es"
  "offers (CloseTimedOut # es) = offers es"
  "offers (Completed # es) = offers es"
  by (simp_all add: offers_def)

lemma run_offers_started:
  assumes "connect env = None" and "bind (go_div Second rate) NewTicker = Inr d"
  shows "offers (fst (run build env rate)) = fst (generate build (ticks env) (seed env) 0)"
proof (cases "generate build (ticks env) (seed env) 0")
  case (Pair os e)
  show ?thesis
  proof (cases e)
    case None
    with Pair assms show ?thesis
      by (simp add: run_def offers_simps offers_Offered)
  next
    case (Some p)
    with Pair assms show ?thesis
      by (simp add: run_def offers_simps offers_map)
  qed
qed

lemma run_offers:
  "offers (fst (run build env rate)) = [] \<or>
   offers (fst (run build env rate)) = fst (generate build (ticks env) (seed env) 0)"
proof (cases "connect env")
  case (Some e)
  then show ?thesis by (simp add: run_def offers_simps)
next
  case None
  show ?thesis
  proof (cases "bind (go_div Second rate) NewTicker")
    case (Inl p)
    with None show ?thesis by (simp add: run_def offers_simps)
  next
    case (Inr d)
    from run_offers_started [OF None Inr] show ?thesis by simp
  qed
qed

text \<open>
  Claim C10. In both producers \<^verbatim>\<open>run\<close> starts the counter at 0 and increments it in
  the send branch only. So in every run the \<^verbatim>\<open>id\<close> fields read from the payloads of the
  accepted messages, in order, are 0, 1, 2, ... (as 64-bit values; as integers for every
  run shorter than \<open>2^63\<close> ticks). The payload offered after an accepted one carries
  the next id, the payload offered after a dropped one carries the same id again, and the
  id in each payload is the one of the event it encodes.
\<close>

theorem accepted_ids_consecutive:
  assumes "tr = fst (producer_run env topic rate skewPercent) \<or>
           tr = fst (balanced_run env topic rate shards)"
  shows "map (\<lambda>m. payload_id (Value m)) (accepted_messages tr) =
           map (\<lambda>k. Some (sint (word_of_nat k :: 64 word))) [0..<length (accepted_messages tr)] \<and>
         (length (ticks env) < 2 ^ 63 \<longrightarrow>
            map (\<lambda>m. payload_id (Value m)) (accepted_messages tr) =
              map (\<lambda>k. Some (int k)) [0..<length (accepted_messages tr)]) \<and>
         (\<forall>k. Suc k < length (offers tr) \<longrightarrow>
            (\<exists>w :: 64 word.
               payload_id (Value (message (offers tr ! k))) = Some (sint w) \<and>
               payload_id (Value (message (offers tr ! Suc k))) =
                 Some (sint (if result (offers tr ! k) = accepted then w + 1 else w)))) \<and>
         (\<forall>x \<in> set (offers tr).
            Value (message x) = encode (event x) \<and>
            payload_id (Value (message x)) = Some (sint (ID (event x))))"
proof -
  from assms obtain build where b: "stamps_id build" and tr: "tr = fst (run build env rate)"
  proof
    assume "tr = fst (producer_run env topic rate skewPercent)"
    then show ?thesis
      using that [of "skewed_message topic skewPercent"] skewed_stamps_id
      by (simp add: producer_run_def)
  next
    assume "tr = fst (balanced_run env topic rate shards)"
    then show ?thesis
      using that [of "balanced_message topic shards"] balanced_stamps_id
      by (simp add: balanced_run_def)
  qed
  let ?os = "fst (generate build (ticks env) (seed env) 0)"
  let ?acc = "filter (\<lambda>x. result x = accepted) ?os"
  have o: "offers tr = [] \<or> offers tr = ?os"
    using run_offers [of build env rate] tr by simp
  have v: "Value (message x) = encode (event x) \<and>
           payload_id (Value (message x)) = Some (sint (ID (event x)))" if "x \<in> set ?os" for x
    using generate_values [OF b that] payload_id_encode [of "event x"] by simp
  have ids: "map (\<lambda>x. ID (event x)) ?acc = map word_of_nat [0..<length ?acc]"
    using generate_accepted_ids [OF b, of "ticks env" "seed env" 0] by simp
  have "map (\<lambda>m. payload_id (Value m)) (map message ?acc) =
        map (\<lambda>x. Some (sint (ID (event x)))) ?acc"
    using v by (simp add: payload_id_encode)
  also have "\<dots> = map (\<lambda>w. Some (sint w)) (map (\<lambda>x. ID (event x)) ?acc)"
    by (simp add: comp_def)
  also have "\<dots> = map (\<lambda>w :: 64 word. Some (sint w)) (map word_of_nat [0..<length ?acc])"
    unfolding ids by (rule refl)
  finally have c1: "map (\<lambda>m. payload_id (Value m)) (map message ?acc) =
      map (\<lambda>k. Some (sint (word_of_nat k :: 64 word))) [0..<length ?acc]"
    by (simp add: comp_def)
  have c2: "map (\<lambda>m. payload_id (Value m)) (map message ?acc) =
      map (\<lambda>k. Some (int k)) [0..<length ?acc]" if "length (ticks env) < 2 ^ 63"
  proof -
    have "length ?acc \<le> length ?os" by simp
    also have "\<dots> \<le> length (ticks env)" by (rule generate_length)
    finally have "\<forall>k \<in> set [0..<length ?acc]. k < 2 ^ 63"
      using that by simp
    then have "map (\<lambda>k. Some (sint (word_of_nat k :: 64 word))) [0..<length ?acc] =
        map (\<lambda>k. Some (int k)) [0..<length ?acc]"
      by (intro map_cong refl) (simp add: sint_small)
    with c1 show ?thesis by simp
  qed
  have c3: "\<exists>w :: 64 word.
       payload_id (Value (message (?os ! k))) = Some (sint w) \<and>
       payload_id (Value (message (?os ! Suc k))) =
         Some (sint (if result (?os ! k) = accepted then w + 1 else w))"
    if "Suc k < length ?os" for k
  proof -
    from that have "?os ! k \<in> set ?os" "?os ! Suc k \<in> set ?os" by simp_all
    with v have "payload_id (Value (message (?os ! k))) = Some (sint (ID (event (?os ! k))))"
      and "payload_id (Value (message (?os ! Suc k))) = Some (sint (ID (event (?os ! Suc k))))"
      by blast+
    with generate_next_id [OF b that] show ?thesis by auto
  qed
  from o show ?thesis
  proof
    assume "offers tr = []"
    then show ?thesis by (simp add: accepted_messages_def)
  next
    assume "offers tr = ?os"
    with c1 c2 c3 v show ?thesis by (simp add: accepted_messages_def payload_id_encode)
  qed
qed

theorem accepted_ids_consecutive_witness:
  "map result (offers (fst (producer_run
      \<lparr>connect = None, seed = sconst 7,
         ticks = [\<lparr>now = 0, input = \<lparr>buf = [], cap = 0, recvq = 1, received = []\<rparr>\<rparr>,
                  \<lparr>now = 1, input = \<lparr>buf = [], cap = 0, recvq = 0, received = []\<rparr>\<rparr>,
                  \<lparr>now = 2, input = \<lparr>buf = [], cap = 0, recvq = 1, received = []\<rparr>\<rparr>],
         close_in_time = True\<rparr> ''game-events'' 400 95))) = [accepted, dropped, accepted] \<and>
   map (\<lambda>m. payload_id (Value m)) (accepted_messages (fst (producer_run
      \<lparr>connect = None, seed = sconst 7,
         ticks = [\<lparr>now = 0, input = \<lparr>buf = [], cap = 0, recvq = 1, received = []\<rparr>\<rparr>,
                  \<lparr>now = 1, input = \<lparr>buf = [], cap = 0, recvq = 0, received = []\<rparr>\<rparr>,
                  \<lparr>now = 2, input = \<lparr>buf = [], cap = 0, recvq = 1, received = []\<rparr>\<rparr>],
         close_in_time = True\<rparr> ''game-events'' 400 95))) = [Some 0, Some 1]"
proof -
  let ?ts = "[\<lparr>now = 0, input = \<lparr>buf = [], cap = 0, recvq = 1, received = []\<rparr>\<rparr>,
              \<lparr>now = 1, input = \<lparr>buf = [], cap = 0, recvq = 0, received = []\<rparr>\<rparr>,
              \<lparr>now = 2, input = \<lparr>buf = [], cap = 0, recvq = 1, received = []\<rparr>\<rparr>]"
  let ?env = "\<lparr>connect = None, seed = sconst 7, ticks = ?ts, close_in_time = True\<rparr>"
  let ?tr = "fst (producer_run ?env ''game-events'' 400 95)"
  have g: "map result (fst (generate (skewed_message ''game-events'' 95) ?ts (sconst 7) 0)) =
      [accepted, dropped, accepted]"
    by (simp add: skewed_message_eq Let_def try_send_def)
  have t: "bind (go_div Second 400) NewTicker = Inr (Second div 400)"
    by (rule ticker_ok) simp_all
  have "offers ?tr = fst (generate (skewed_message ''game-events'' 95) ?ts (sconst 7) 0)"
    using run_offers_started [of ?env 400 "Second div 400" "skewed_message ''game-events'' 95"] t
    by (simp add: producer_run_def del: generate.simps)
  with g have r: "map result (offers ?tr) = [accepted, dropped, accepted]"
    by simp
  have "length (accepted_messages ?tr) = length (filter (\<lambda>x. x = accepted) (map result (offers ?tr)))"
    by (simp add: accepted_messages_def filter_map comp_def)
  then have len: "length (accepted_messages ?tr) = 2"
    by (simp only: r) simp
  have b: "length (ticks ?env) < 2 ^ 63" by simp
  have "[0..<2] = [0, Suc 0]" by (simp add: upt_rec)
  with accepted_ids_consecutive [of ?tr ?env "''game-events''" 400 95 16] b len
  have "map (\<lambda>m. payload_id (Value m)) (accepted_messages ?tr) = [Some 0, Some 1]"
    by simp
  with r show ?thesis by simp
qed

section \<open>The consumer\<close>

text \<open>
  Whatever the \<^verbatim>\<open>select\<close> receives, the consumer's \<^verbatim>\<open>run\<close> returns nil once the
  consumer group exists; only the failure to create the group is returned as an error.
\<close>

lemma consumer_connected_exits_zero: "group_connect env = None \<Longrightarrow> snd (consumer_main env) = 0"
  by (cases "first env") (simp_all add: consumer_main_def consumer_run_def exit_code_def)

lemma consumer_connect_error_exits_one:
  "group_connect env = Some e \<Longrightarrow> snd (consumer_main env) = 1"
  by (simp add: consumer_main_def consumer_run_def exit_code_def)

text \<open>
  Claim C3, at the failing input. \<^verbatim>\<open>client.Consume\<close> returns an error, the goroutine
  sends it on \<^verbatim>\<open>consumeErrors\<close>, \<^verbatim>\<open>run\<close> logs it and returns nil: the process exits
  with status 0, where the claim has a status other than 0.
\<close>

theorem consume_error_exits_zero:
  "consumer_main
     \<lparr>group_connect = None,
        first = ConsumeReturned (Some ''kafka: client has run out of available brokers''),
        close_error = None\<rparr> =
     ([ConsumerStarted,
       ConsumeError (Some ''kafka: client has run out of available brokers''),
       ConsumerCompleted], 0)"
  by (simp add: consumer_main_def consumer_run_def exit_code_def)

lemma go_rem_zero: "go_rem a 500 = 0 \<longleftrightarrow> 500 dvd a"
  by (auto simp: go_rem_def sgn_if dvd_eq_mod_eq_0 zmod_zminus1_eq_if abs_if)

lemma marks_ConsumeClaim: "marks (ConsumeClaim h p msgs) = msgs"
  by (induction msgs) simp_all

lemma sleeps_ConsumeClaim: "sleeps (ConsumeClaim h p msgs) = replicate (length msgs) (work h)"
  by (induction msgs) simp_all

lemma logs_ConsumeClaim:
  "logs (ConsumeClaim h p msgs) =
     map (\<lambda>m. (p, msgOffset m, msgKey m)) (filter (\<lambda>m. 500 dvd sint (msgOffset m)) msgs)"
  by (induction msgs) (simp_all add: go_rem_zero)

lemma ack_after_work_ConsumeClaim: "ack_after_work c (ConsumeClaim h p msgs)"
  by (induction msgs arbitrary: c) simp_all

lemma ack_after_work_prefix:
  "ack_after_work c tr \<Longrightarrow> length (marks (take n tr)) \<le> c + length (sleeps (take n tr))"
proof (induction tr arbitrary: c n)
  case Nil
  then show ?case by simp
next
  case (Cons e es)
  show ?case
  proof (cases n)
    case 0
    then show ?thesis by simp
  next
    case (Suc n')
    show ?thesis
    proof (cases e)
      case (Slept d)
      with Cons.prems have "ack_after_work (Suc c) es" by simp
      from Cons.IH [OF this, of n'] Slept Suc show ?thesis by simp
    next
      case (Logged p off k)
      with Cons.prems have "ack_after_work c es" by simp
      from Cons.IH [OF this, of n'] Logged Suc show ?thesis by simp
    next
      case (Marked m)
      with Cons.prems have c: "0 < c" and "ack_after_work (c - 1) es" by simp_all
      from Cons.IH [OF this(2), of n'] c Marked Suc show ?thesis by simp
    qed
  qed
qed

lemma Logged_in_logs: "Logged p off k \<in> set tr \<longleftrightarrow> (p, off, k) \<in> set (logs tr)"
  by (induction tr rule: logs.induct) auto

text \<open>
  Claim C7. \<open>ConsumeClaim\<close> marks the messages of a claim in the order the partition
  delivers them, so in strictly increasing offset order whenever the partition delivers
  them so; it sleeps once per message for the configured work, and at every moment of the
  run the marks made do not outnumber the sleeps completed: the mark of the \<open>k\<close>-th
  message comes after the \<open>k\<close>-th sleep, which is that message's own.
\<close>

theorem consume_in_order_ack_after_work:
  "marks (ConsumeClaim h p msgs) = msgs \<and>
   (sorted_wrt (\<lambda>a b. sint a < sint b) (map msgOffset msgs) \<longrightarrow>
      sorted_wrt (\<lambda>a b. sint a < sint b) (map msgOffset (marks (ConsumeClaim h p msgs)))) \<and>
   sleeps (ConsumeClaim h p msgs) = replicate (length msgs) (work h) \<and>
   (\<forall>n. length (marks (take n (ConsumeClaim h p msgs))) \<le>
         length (sleeps (take n (ConsumeClaim h p msgs))))"
  using ack_after_work_prefix [OF ack_after_work_ConsumeClaim [of 0 h p msgs]]
  by (simp add: marks_ConsumeClaim sleeps_ConsumeClaim)

theorem consume_in_order_ack_after_work_witness:
  "ConsumeClaim \<lparr>work = 2000000\<rparr> 2
     [\<lparr>msgKey = ''player-000001'', msgOffset = 499\<rparr>, \<lparr>msgKey = ''player-000001'', msgOffset = 500\<rparr>] =
     [Slept 2000000, Marked \<lparr>msgKey = ''player-000001'', msgOffset = 499\<rparr>,
      Slept 2000000, Logged 2 500 ''player-000001'',
      Marked \<lparr>msgKey = ''player-000001'', msgOffset = 500\<rparr>] \<and>
   sorted_wrt (\<lambda>a b. sint a < sint b) (map msgOffset (marks (ConsumeClaim \<lparr>work = 2000000\<rparr> 2
     [\<lparr>msgKey = ''player-000001'', msgOffset = 499\<rparr>, \<lparr>msgKey = ''player-000001'', msgOffset = 500\<rparr>]))) \<and>
   length (marks (take 1 (ConsumeClaim \<lparr>work = 2000000\<rparr> 2
     [\<lparr>msgKey = ''player-000001'', msgOffset = 499\<rparr>, \<lparr>msgKey = ''player-000001'', msgOffset = 500\<rparr>]))) \<le> 1"
proof -
  let ?msgs = "[\<lparr>msgKey = ''player-000001'', msgOffset = 499\<rparr>, \<lparr>msgKey = ''player-000001'', msgOffset = 500 :: 64 word\<rparr>]"
  have e: "ConsumeClaim \<lparr>work = 2000000\<rparr> 2 ?msgs =
     [Slept 2000000, Marked \<lparr>msgKey = ''player-000001'', msgOffset = 499\<rparr>,
      Slept 2000000, Logged 2 500 ''player-000001'',
      Marked \<lparr>msgKey = ''player-000001'', msgOffset = 500\<rparr>]"
    by (simp add: go_rem_def)
  have s: "sorted_wrt (\<lambda>a b. sint a < sint b) (map msgOffset ?msgs)"
    by simp
  from consume_in_order_ack_after_work [of "\<lparr>work = 2000000\<rparr>" 2 ?msgs] s e
  show ?thesis by simp
qed

text \<open>
  Claim C8. The samples logged, in order, are partition, offset and key of exactly the
  messages whose offset is divisible by 500, the interval the source fixes; so a message
  of the claim is sampled if and only if 500 divides its offset.
\<close>

theorem sampling_every_500:
  "logs (ConsumeClaim h p msgs) =
     map (\<lambda>m. (p, msgOffset m, msgKey m)) (filter (\<lambda>m. 500 dvd sint (msgOffset m)) msgs) \<and>
   (\<forall>m \<in> set msgs.
      Logged p (msgOffset m) (msgKey m) \<in> set (ConsumeClaim h p msgs) \<longleftrightarrow>
        500 dvd sint (msgOffset m))"
  by (auto simp: Logged_in_logs logs_ConsumeClaim)

theorem sampling_every_500_witness:
  "logs (ConsumeClaim \<lparr>work = 2000000\<rparr> 2
     [\<lparr>msgKey = ''player-000001'', msgOffset = 499\<rparr>, \<lparr>msgKey = ''player-000001'', msgOffset = 500\<rparr>,
      \<lparr>msgKey = ''player-000007'', msgOffset = 1000\<rparr>]) =
     [(2, 500, ''player-000001''), (2, 1000, ''player-000007'')]"
  using sampling_every_500 [of "\<lparr>work = 2000000\<rparr>" 2
     "[\<lparr>msgKey = ''player-000001'', msgOffset = 499\<rparr>, \<lparr>msgKey = ''player-000001'', msgOffset = 500\<rparr>,
      \<lparr>msgKey = ''player-000007'', msgOffset = 1000\<rparr>]"]
  by simp


end
